theory Spec2Isabelle
  imports Complex_Main "HOL-Library.AList"
begin

section \<open>Strings\<close>

text \<open>
  A JavaScript string is a sequence of UTF-16 code units. The embedding uses
  \<^typ>\<open>string\<close>, whose characters are the code units below 256 (the Latin-1 range),
  so \<^term>\<open>length s\<close> is the \<open>.length\<close> of such a string. Numbers that the code
  computes with \<open>Math.log\<close>, \<open>Math.sqrt\<close> and \<open>/\<close> are real numbers here.
\<close>

definition newline :: char where
  "newline = CHR 0x0A"

definition space :: char where
  "space = CHR '' ''"

text \<open>The class \<open>\s\<close> of a regular expression, which is also what \<open>trim\<close> removes.\<close>

definition is_space :: "char \<Rightarrow> bool" where
  "is_space c = (c \<in> set [CHR 0x09, CHR 0x0A, CHR 0x0B, CHR 0x0C, CHR 0x0D, CHR '' '', CHR 0xA0])"

text \<open>The class \<open>\w\<close>: ASCII letters, digits and the underscore.\<close>

definition is_word :: "char \<Rightarrow> bool" where
  "is_word c = (let n = (of_char c :: nat) in
     (97 \<le> n \<and> n \<le> 122) \<or> (65 \<le> n \<and> n \<le> 90) \<or> (48 \<le> n \<and> n \<le> 57) \<or> n = 95)"

text \<open>\<open>toLowerCase\<close> on one code unit: \<open>A\<close>..\<open>Z\<close> and the accented capitals
  \<open>0xC0\<close>..\<open>0xDE\<close> (without the multiplication sign \<open>0xD7\<close>) move up by 32.\<close>

definition lower_char :: "char \<Rightarrow> char" where
  "lower_char c = (let n = (of_char c :: nat) in
     if (65 \<le> n \<and> n \<le> 90) \<or> (192 \<le> n \<and> n \<le> 222 \<and> n \<noteq> 215)
     then char_of (n + 32) else c)"

definition toLowerCase :: "string \<Rightarrow> string" where
  "toLowerCase s = map lower_char s"

text \<open>\<open>s.trim()\<close>.\<close>

definition trim :: "string \<Rightarrow> string" where
  "trim s = rev (dropWhile is_space (rev (dropWhile is_space s)))"

text \<open>\<open>s.split(d)\<close> for a separator of one character: every occurrence of \<open>d\<close> cuts,
  so the result is never empty and \<open>''''.split(d)\<close> is \<open>['''']\<close>.\<close>

fun split_on :: "char \<Rightarrow> string \<Rightarrow> string list" where
  "split_on d [] = [[]]"
| "split_on d (c # cs) =
     (if c = d then [] # split_on d cs
      else (case split_on d cs of [] \<Rightarrow> [[c]] | t # ts \<Rightarrow> (c # t) # ts))"

text \<open>\<open>s.split(/\s+/)\<close>: every maximal run of whitespace cuts once. A run at the start or
  at the end of the string leaves an empty string on that side.\<close>

function split_ws :: "string \<Rightarrow> string \<Rightarrow> string list" where
  "split_ws cur [] = [cur]"
| "split_ws cur (c # cs) =
     (if is_space c then cur # split_ws [] (dropWhile is_space cs)
      else split_ws (cur @ [c]) cs)"
  by pat_completeness auto
termination
  by (relation "measure (\<lambda>(cur, s). length s)")
     (auto simp: less_Suc_eq_le length_dropWhile_le)

text \<open>\<open>xs.join(sep)\<close>.\<close>

fun join :: "string \<Rightarrow> string list \<Rightarrow> string" where
  "join sep [] = []"
| "join sep [x] = x"
| "join sep (x # y # ys) = x @ sep @ join sep (y # ys)"

text \<open>\<open>xs.slice(start)\<close> and \<open>xs.slice(0, end)\<close>: a negative index counts from the end,
  and both are clamped to the array.\<close>

definition slice_from :: "int \<Rightarrow> 'a list \<Rightarrow> 'a list" where
  "slice_from start xs =
     (let len = int (length xs);
          k = (if start < 0 then max (len + start) 0 else min start len)
      in drop (nat k) xs)"

definition slice_to :: "int \<Rightarrow> 'a list \<Rightarrow> 'a list" where
  "slice_to end xs =
     (let len = int (length xs);
          final = (if end < 0 then max (len + end) 0 else min end len)
      in take (nat final) xs)"

text \<open>The decimal digits of a number, as a template literal renders it.\<close>

fun digits :: "nat \<Rightarrow> string" where
  "digits n = (if n < 10 then [char_of (48 + n)] else digits (n div 10) @ [char_of (48 + n mod 10)])"

declare digits.simps [simp del]

section \<open>Tokenizer\<close>

definition stopWords :: "string list" where
  "stopWords =
     [''the'', ''is'', ''at'', ''which'', ''on'', ''a'', ''an'', ''and'', ''or'', ''but'',
      ''in'', ''with'', ''to'', ''for'', ''of'', ''as'', ''by'', ''that'', ''this'',
      ''it'', ''from'', ''be'', ''are'', ''was'', ''were'', ''been'', ''have'', ''has'',
      ''had'', ''do'', ''does'', ''did'', ''will'', ''would'', ''could'', ''should'']"

definition isStopWord :: "string \<Rightarrow> bool" where
  "isStopWord word = (word \<in> set stopWords)"

text \<open>\<open>replace(/[^\w\s]/g, ' ')\<close>.\<close>

definition strip_punctuation :: "string \<Rightarrow> string" where
  "strip_punctuation s = map (\<lambda>c. if is_word c \<or> is_space c then c else space) s"

definition tokenize :: "string \<Rightarrow> string list" where
  "tokenize text =
     filter (\<lambda>token. \<not> isStopWord token)
       (filter (\<lambda>token. length token > 2)
         (split_ws [] (strip_punctuation (toLowerCase text))))"

text \<open>The tokenizer as the specification words it: the tokens are the maximal runs of
  characters that are not whitespace, so none of them is empty.\<close>

fun runs :: "string \<Rightarrow> string \<Rightarrow> string list" where
  "runs cur [] = (if cur = [] then [] else [cur])"
| "runs cur (c # cs) =
     (if is_space c then (if cur = [] then runs [] cs else cur # runs [] cs)
      else runs (cur @ [c]) cs)"

definition spec_tokenize :: "string \<Rightarrow> string list" where
  "spec_tokenize text =
     (let lowered = toLowerCase text;
          cleaned = map (\<lambda>c. if is_word c \<or> is_space c then c else space) lowered;
          tokens = runs [] cleaned;
          long = filter (\<lambda>t. \<not> length t \<le> 2) tokens
      in filter (\<lambda>t. t \<notin> set stopWords) long)"

section \<open>Data model\<close>

record document =
  doc_id :: string
  name :: string
  doc_content :: string
  addedAt :: string
  chunkCount :: nat
  chatId :: string

record chunk =
  chunk_id :: string
  docId :: string
  docName :: string
  content :: string
  index :: nat
  tokens :: "string list"
  createdAt :: string

record retrieval_result =
  r_content :: string
  r_docName :: string
  score :: real
  chunkId :: string

text \<open>The engine. \<open>documents\<close> is a JavaScript \<open>Map\<close>: an association list in insertion
  order, where \<open>set\<close> on a present key replaces the value in place
  (\<^const>\<open>AList.update\<close>) and \<open>delete\<close> drops the key (\<^const>\<open>AList.delete\<close>).\<close>

record rag_engine =
  documents :: "(string \<times> document) list"
  chunks :: "chunk list"
  chunkSize :: int
  chunkOverlap :: int

definition new_engine :: rag_engine where
  "new_engine = \<lparr>documents = [], chunks = [], chunkSize = 600, chunkOverlap = 100\<rparr>"

definition updateConfig :: "rag_engine \<Rightarrow> int \<Rightarrow> int \<Rightarrow> rag_engine" where
  "updateConfig eng newSize newOverlap = eng\<lparr>chunkSize := newSize, chunkOverlap := newOverlap\<rparr>"

text \<open>What the engine reads from outside during one operation: the identifier that
  \<open>generateDocId\<close> builds from the clock and the random generator, the time stamp of
  \<open>new Date().toISOString()\<close>, and how each request to the store ends.\<close>

datatype outcome = Resolved | Rejected string

record world =
  generated_id :: string
  timestamp :: string
  saveDocument :: outcome
  saveChunks :: outcome
  deleteDocument :: outcome
  deleteChunksByDocId :: outcome

section \<open>Chunker\<close>

definition createChunk :: "string \<Rightarrow> string \<Rightarrow> string \<Rightarrow> string \<Rightarrow> nat \<Rightarrow> chunk" where
  "createChunk now text d fileName i =
     \<lparr>chunk_id = d @ ''_chunk_'' @ digits i,
      docId = d,
      docName = fileName,
      content = trim text,
      index = i,
      tokens = tokenize text,
      createdAt = now\<rparr>"

text \<open>The body of the loop over the lines, on the loop's variables
  \<open>(chunks, currentChunk, chunkIndex)\<close>.\<close>

definition chunk_step ::
  "rag_engine \<Rightarrow> string \<Rightarrow> string \<Rightarrow> string \<Rightarrow> chunk list \<times> string \<times> nat \<Rightarrow> string
     \<Rightarrow> chunk list \<times> string \<times> nat" where
  "chunk_step eng now d fileName st line =
     (case st of (chs, currentChunk, chunkIndex) \<Rightarrow>
        if int (length currentChunk) + int (length line) > chunkSize eng \<and> length currentChunk > 0
        then
          (let words = split_on space currentChunk;
               overlapWords = slice_from (- (chunkOverlap eng div 5)) words
           in (chs @ [createChunk now currentChunk d fileName chunkIndex],
               join [space] overlapWords @ [newline] @ line,
               chunkIndex + 1))
        else (chs, currentChunk @ (if length currentChunk > 0 then [newline] else []) @ line,
              chunkIndex))"

definition chunkDocument :: "rag_engine \<Rightarrow> string \<Rightarrow> string \<Rightarrow> string \<Rightarrow> string \<Rightarrow> chunk list" where
  "chunkDocument eng now text d fileName =
     (case foldl (chunk_step eng now d fileName) ([], [], 0) (split_on newline text) of
        (chs, currentChunk, chunkIndex) \<Rightarrow>
          if length currentChunk > 0
          then chs @ [createChunk now currentChunk d fileName chunkIndex]
          else chs)"

text \<open>The chunker's step as the specification words it: the chunk is closed when the
  buffer with the line appended would be longer than \<open>chunkSize\<close>, and the new buffer
  starts with the last \<open>floor(chunkOverlap / 5)\<close> words of the closed one.\<close>

definition appended :: "string \<Rightarrow> string \<Rightarrow> string" where
  "appended buffer line = buffer @ (if buffer = [] then [] else [newline]) @ line"

definition last_words :: "nat \<Rightarrow> string list \<Rightarrow> string list" where
  "last_words n ws = drop (length ws - n) ws"

definition spec_closes :: "rag_engine \<Rightarrow> string \<Rightarrow> string \<Rightarrow> bool" where
  "spec_closes eng buffer line =
     (int (length (appended buffer line)) > chunkSize eng \<and> buffer \<noteq> [])"

definition spec_chunk_step ::
  "rag_engine \<Rightarrow> string \<Rightarrow> string \<Rightarrow> string \<Rightarrow> chunk list \<times> string \<times> nat \<Rightarrow> string
     \<Rightarrow> chunk list \<times> string \<times> nat" where
  "spec_chunk_step eng now d fileName st line =
     (case st of (chs, buffer, ordinal) \<Rightarrow>
        if spec_closes eng buffer line
        then (chs @ [createChunk now buffer d fileName ordinal],
              join [space] (last_words (nat (chunkOverlap eng div 5)) (split_on space buffer))
                @ [newline] @ line,
              Suc ordinal)
        else (chs, appended buffer line, ordinal))"

text \<open>The step with the condition that the code tests: the lengths of the buffer and of
  the line, without the newline that joins them.\<close>

definition closes :: "rag_engine \<Rightarrow> string \<Rightarrow> string \<Rightarrow> bool" where
  "closes eng buffer line =
     (int (length buffer) + int (length line) > chunkSize eng \<and> buffer \<noteq> [])"

section \<open>Relevance scorer\<close>

definition tf :: "string list \<Rightarrow> string \<Rightarrow> real" where
  "tf chunkTokens token =
     real (length (filter (\<lambda>t. t = token) chunkTokens)) / real (length chunkTokens)"

definition docsWithTerm :: "rag_engine \<Rightarrow> string \<Rightarrow> nat" where
  "docsWithTerm eng token = length (filter (\<lambda>c. token \<in> set (tokens c)) (chunks eng))"

definition idf :: "rag_engine \<Rightarrow> string \<Rightarrow> real" where
  "idf eng token = ln (real (length (chunks eng)) / real (docsWithTerm eng token + 1))"

text \<open>The \<open>forEach\<close> over the query tokens, which adds to \<open>score\<close>.\<close>

definition accumulate :: "rag_engine \<Rightarrow> string list \<Rightarrow> real \<Rightarrow> string \<Rightarrow> real" where
  "accumulate eng chunkTokens acc token =
     (if token \<in> set chunkTokens then acc + tf chunkTokens token * idf eng token else acc)"

definition running_total :: "rag_engine \<Rightarrow> string list \<Rightarrow> string list \<Rightarrow> real" where
  "running_total eng queryTokens chunkTokens = foldl (accumulate eng chunkTokens) 0 queryTokens"

text \<open>With an empty corpus \<open>Math.log(0)\<close> is \<open>-Infinity\<close>, which is no real number;
  \<open>retrieveRelevantChunks\<close> returns before it scores anything then.\<close>

definition calculateRelevanceScore :: "rag_engine \<Rightarrow> string list \<Rightarrow> string list \<Rightarrow> real" where
  "calculateRelevanceScore eng queryTokens chunkTokens =
     (if length queryTokens = 0 \<or> length chunkTokens = 0 then 0
      else running_total eng queryTokens chunkTokens / sqrt (real (length queryTokens)))"

section \<open>Retrieval index\<close>

datatype add_result = Added string nat | AddFailed string

datatype remove_result = Removed | RemoveFailed string

text \<open>\<open>addDocument\<close> changes the memory before the first \<open>await\<close>; a rejected request
  to the store is caught and becomes the failure result.\<close>

definition addDocument ::
  "rag_engine \<Rightarrow> world \<Rightarrow> string \<Rightarrow> string \<Rightarrow> string \<Rightarrow> add_result \<times> rag_engine" where
  "addDocument eng w fileName text chat =
     (let d = generated_id w;
          doc = \<lparr>doc_id = d, name = fileName, doc_content = text, addedAt = timestamp w,
                 chunkCount = 0, chatId = chat\<rparr>;
          chs = chunkDocument eng (timestamp w) text d fileName;
          doc = doc\<lparr>chunkCount := length chs\<rparr>;
          eng' = eng\<lparr>documents := AList.update d doc (documents eng),
                     chunks := chunks eng @ chs\<rparr>
      in case saveDocument w of
           Rejected msg \<Rightarrow> (AddFailed msg, eng')
         | Resolved \<Rightarrow>
             (case saveChunks w of
                Rejected msg \<Rightarrow> (AddFailed msg, eng')
              | Resolved \<Rightarrow> (Added d (length chs), eng')))"

definition removeDocument :: "rag_engine \<Rightarrow> world \<Rightarrow> string \<Rightarrow> remove_result \<times> rag_engine" where
  "removeDocument eng w d =
     (let eng' = eng\<lparr>chunks := filter (\<lambda>c. docId c \<noteq> d) (chunks eng),
                     documents := AList.delete d (documents eng)\<rparr>
      in case deleteDocument w of
           Rejected msg \<Rightarrow> (RemoveFailed msg, eng')
         | Resolved \<Rightarrow>
             (case deleteChunksByDocId w of
                Rejected msg \<Rightarrow> (RemoveFailed msg, eng')
              | Resolved \<Rightarrow> (Removed, eng')))"

text \<open>The body of \<open>retrieveRelevantChunks\<close>, with \<open>this.calculateRelevanceScore\<close> as the
  parameter \<open>scorer\<close>. The machine evaluates the scorer with doubles, where sums, quotients
  and logarithms are rounded, so two scores that are equal as real numbers can differ
  there; what the retrieval does with the scores is the same for every scorer.
  \<open>sort\<close> with the comparator \<open>b.score - a.score\<close> is a stable sort by falling score.\<close>

definition retrieve_with ::
  "(string list \<Rightarrow> string list \<Rightarrow> real) \<Rightarrow> rag_engine \<Rightarrow> string \<Rightarrow> int
     \<Rightarrow> retrieval_result list" where
  "retrieve_with scorer eng query topK =
     (if length (chunks eng) = 0 then []
      else
        (let queryTokens = tokenize query;
             scoredChunks = map (\<lambda>chunk. (chunk, scorer queryTokens (tokens chunk))) (chunks eng);
             sorted = sort_key (\<lambda>item. - snd item) scoredChunks
         in map (\<lambda>item. \<lparr>r_content = content (fst item), r_docName = docName (fst item),
                          score = snd item, chunkId = chunk_id (fst item)\<rparr>)
              (filter (\<lambda>item. snd item > 0) (slice_to topK sorted))))"

text \<open>The retrieval with the scorer in real arithmetic.\<close>

definition retrieveRelevantChunks :: "rag_engine \<Rightarrow> string \<Rightarrow> int \<Rightarrow> retrieval_result list" where
  "retrieveRelevantChunks eng query topK =
     retrieve_with (calculateRelevanceScore eng) eng query topK"

text \<open>\<open>getStats\<close> returns an object literal: its property names with their values.\<close>

definition getStats :: "rag_engine \<Rightarrow> (string \<times> nat) list" where
  "getStats eng =
     [(''documentCount'', length (documents eng)),
      (''chunkCount'', length (chunks eng)),
      (''totalSize'', foldl (\<lambda>sum doc. sum + length (doc_content doc)) 0 (map snd (documents eng)))]"

section \<open>The application that calls the index\<close>

record app =
  ragEngine :: rag_engine
  currentChatId :: string
  chatSpecificKnowledge :: bool
  topKChunks :: int

text \<open>The scope that \<open>handleFileUpload\<close> passes to \<open>addDocument\<close>.\<close>

definition upload_scope :: "app \<Rightarrow> string" where
  "upload_scope a = (if chatSpecificKnowledge a then currentChatId a else ''global'')"

text \<open>One round of the loop of \<open>handleFileUpload\<close>, for a file named \<open>fileName\<close> from which
  \<open>extractTextFromFile\<close> has returned \<open>extracted\<close>.\<close>

definition handleFileUpload_file :: "app \<Rightarrow> world \<Rightarrow> string \<Rightarrow> string \<Rightarrow> app" where
  "handleFileUpload_file a w fileName extracted =
     a\<lparr>ragEngine := snd (addDocument (ragEngine a) w fileName extracted (upload_scope a))\<rparr>"

text \<open>The chunks that \<open>handleSendMessage\<close> hands to the generation request.\<close>

definition handleSendMessage_chunks :: "app \<Rightarrow> string \<Rightarrow> retrieval_result list" where
  "handleSendMessage_chunks a message = retrieveRelevantChunks (ragEngine a) message (topKChunks a)"

text \<open>The scope filter of \<open>updateDocumentList\<close>, on the documents that the store
  returns: the list of documents that the knowledge modal shows.\<close>

definition listed_documents :: "app \<Rightarrow> document list \<Rightarrow> document list" where
  "listed_documents a allDocs =
     (if chatSpecificKnowledge a
      then filter (\<lambda>doc. chatId doc = currentChatId a) allDocs
      else filter (\<lambda>doc. chatId doc = [] \<or> chatId doc = ''global'') allDocs)"

text \<open>\<open>updateStats\<close> shows the character count only when \<open>stats.totalChars\<close> is truthy:
  \<open>None\<close> stands for a display left as it was.\<close>

definition updateStats_charCount :: "rag_engine \<Rightarrow> nat option" where
  "updateStats_charCount eng =
     (case map_of (getStats eng) ''totalChars'' of
        None \<Rightarrow> None
      | Some n \<Rightarrow> if n = 0 then None else Some n)"

section \<open>Histories of the index and its invariant\<close>

text \<open>The operations that change the index, each with what it reads from outside.\<close>

datatype operation =
  AddDocument world string string string
| RemoveDocument world string
| UpdateConfig int int

fun apply_operation :: "rag_engine \<Rightarrow> operation \<Rightarrow> rag_engine" where
  "apply_operation eng (AddDocument w fileName body chat) = snd (addDocument eng w fileName body chat)"
| "apply_operation eng (RemoveDocument w d) = snd (removeDocument eng w d)"
| "apply_operation eng (UpdateConfig newSize newOverlap) = updateConfig eng newSize newOverlap"

text \<open>The state after a history of operations.\<close>

definition run :: "rag_engine \<Rightarrow> operation list \<Rightarrow> rag_engine" where
  "run eng ops = foldl apply_operation eng ops"

text \<open>A history in which every identifier that \<open>generateDocId\<close> produces is, at that
  moment, not a key of \<open>documents\<close>. The code does not check this.\<close>

fun fresh_identifiers :: "rag_engine \<Rightarrow> operation list \<Rightarrow> bool" where
  "fresh_identifiers eng [] = True"
| "fresh_identifiers eng (AddDocument w fileName body chat # ops) =
     (generated_id w \<notin> fst ` set (documents eng) \<and>
      fresh_identifiers (snd (addDocument eng w fileName body chat)) ops)"
| "fresh_identifiers eng (RemoveDocument w d # ops) =
     fresh_identifiers (snd (removeDocument eng w d)) ops"
| "fresh_identifiers eng (UpdateConfig newSize newOverlap # ops) =
     fresh_identifiers (updateConfig eng newSize newOverlap) ops"

definition chunks_of :: "rag_engine \<Rightarrow> string \<Rightarrow> chunk list" where
  "chunks_of eng d = filter (\<lambda>c. docId c = d) (chunks eng)"

definition index_invariant :: "rag_engine \<Rightarrow> bool" where
  "index_invariant eng =
     (distinct (map fst (documents eng)) \<and>
      list_all (\<lambda>c. docId c \<in> fst ` set (documents eng)) (chunks eng) \<and>
      list_all (\<lambda>(d, doc). map index (chunks_of eng d) = [0..<length (chunks_of eng d)] \<and>
                          chunkCount doc = length (chunks_of eng d)) (documents eng))"

text \<open>The invariant of the chunker's loop: the chunks made so far carry the ordinals
  from 0 up to the next ordinal and belong to the document.\<close>

definition numbered :: "string \<Rightarrow> chunk list \<times> string \<times> nat \<Rightarrow> bool" where
  "numbered d st = (case st of (chs, cur, idx) \<Rightarrow>
     map index chs = [0..<idx] \<and> list_all (\<lambda>c. docId c = d) chs)"

section \<open>Sample states\<close>

definition quiet_world :: "string \<Rightarrow> world" where
  "quiet_world d =
     \<lparr>generated_id = d, timestamp = ''2024-01-01T00:00:00.000Z'', saveDocument = Resolved,
      saveChunks = Resolved, deleteDocument = Resolved, deleteChunksByDocId = Resolved\<rparr>"

definition engine1 :: rag_engine where
  "engine1 = snd (addDocument new_engine (quiet_world ''doc_1'') ''a.txt'' ''alpha beta'' ''chat_1'')"

definition engine2 :: rag_engine where
  "engine2 = snd (addDocument engine1 (quiet_world ''doc_2'') ''b.txt'' ''gamma delta'' ''global'')"

definition engine3 :: rag_engine where
  "engine3 = snd (addDocument engine2 (quiet_world ''doc_3'') ''c.txt'' ''epsilon zeta'' ''global'')"

definition sample_chunk :: "string \<Rightarrow> string \<Rightarrow> string \<Rightarrow> chunk" where
  "sample_chunk d fileName text =
     \<lparr>chunk_id = d @ ''_chunk_0'', docId = d, docName = fileName, content = text, index = 0,
      tokens = split_on space text, createdAt = ''2024-01-01T00:00:00.000Z''\<rparr>"

definition engine4 :: rag_engine where
  "engine4 = snd (addDocument engine3 (quiet_world ''doc_4'') ''d.txt'' ''alpha'' ''global'')"

definition sample_history :: "operation list" where
  "sample_history =
     [AddDocument (quiet_world ''doc_1'') ''a.txt'' ''alpha beta'' ''chat_1'',
      UpdateConfig 12 10,
      AddDocument (quiet_world ''doc_2'') ''b.txt''
        (''gamma delta'' @ [newline] @ ''epsilon zeta'' @ [newline] @ ''eta theta'') ''global'',
      RemoveDocument (quiet_world []) ''doc_1'',
      AddDocument (quiet_world ''doc_1'') ''c.txt'' ''iota kappa'' ''global'']"

definition colliding_history :: "operation list" where
  "colliding_history =
     [AddDocument (quiet_world ''doc_1'') ''a.txt'' ''alpha beta'' ''chat_1'',
      AddDocument (quiet_world ''doc_1'') ''b.txt'' ''gamma'' ''global'']"

definition small_engine :: rag_engine where
  "small_engine = updateConfig new_engine 10 10"

definition sample_app :: app where
  "sample_app = \<lparr>ragEngine = engine3, currentChatId = ''chat_2'', chatSpecificKnowledge = True,
     topKChunks = 3\<rparr>"

definition failing_world :: world where
  "failing_world = (quiet_world ''doc_9'')\<lparr>saveDocument := Rejected ''QuotaExceededError''\<rparr>"

section \<open>Tokenizer: proofs\<close>

lemma runs_skip_spaces: "runs [] (dropWhile is_space cs) = runs [] cs"
  by (induction cs) simp_all

lemma split_ws_runs: "filter (\<lambda>t. t \<noteq> []) (split_ws cur s) = runs cur s"
proof (induction cur s rule: split_ws.induct)
  case (1 cur)
  show ?case by simp
next
  case (2 cur c cs)
  show ?case
  proof (cases "is_space c")
    case True
    with 2 show ?thesis by (simp add: runs_skip_spaces)
  next
    case False
    with 2 show ?thesis by simp
  qed
qed

lemma filter_long_nonempty:
  "filter (\<lambda>t. length t > 2) (filter (\<lambda>t. t \<noteq> []) xs) = filter (\<lambda>t. length t > (2::nat)) xs"
  by (induction xs) auto

lemma long_tokens_of_runs:
  "filter (\<lambda>t. length t > 2) (split_ws [] s) = filter (\<lambda>t. length t > 2) (runs [] s)"
  using filter_long_nonempty [of "split_ws [] s"] by (simp add: split_ws_runs)

text \<open>
  Claim C9. For every input string, \<open>tokenize\<close> equals the reference pipeline of the
  specification: lower-case the input, replace every character that is neither a word
  character nor whitespace by a space, take the runs between whitespace in their order
  (duplicates stay), drop the tokens of length at most 2, then drop the stop words. The
  tokens of the empty string are the empty sequence, and \<open>The Cat sat.\<close> gives
  \<open>cat\<close> and \<open>sat\<close>: the stop word \<open>the\<close> is gone and \<open>sat\<close> is kept.
\<close>

theorem C9_tokenize_reference:
  "tokenize text = spec_tokenize text \<and>
   tokenize [] = [] \<and>
   tokenize ''The Cat sat.'' = [''cat'', ''sat'']"
proof -
  have "tokenize text = spec_tokenize text"
    by (simp add: tokenize_def spec_tokenize_def strip_punctuation_def isStopWord_def
        not_le Let_def long_tokens_of_runs)
  moreover have "tokenize [] = []"
    by code_simp
  moreover have "tokenize ''The Cat sat.'' = [''cat'', ''sat'']"
    by code_simp
  ultimately show ?thesis by simp
qed

section \<open>Sample states: evaluation\<close>

lemma engine1_chunks: "chunks engine1 = [sample_chunk ''doc_1'' ''a.txt'' ''alpha beta'']"
  by code_simp

lemma engine3_chunks:
  "chunks engine3 =
     [sample_chunk ''doc_1'' ''a.txt'' ''alpha beta'',
      sample_chunk ''doc_2'' ''b.txt'' ''gamma delta'',
      sample_chunk ''doc_3'' ''c.txt'' ''epsilon zeta'']"
  by code_simp

lemma engine3_documents:
  "map (\<lambda>(d, doc). (d, chatId doc)) (documents engine3) =
     [(''doc_1'', ''chat_1''), (''doc_2'', ''global''), (''doc_3'', ''global'')]"
  by code_simp

lemma query_alpha: "tokenize ''alpha'' = [''alpha'']"
  by code_simp

lemma sample_chunk_tokens:
  "tokens (sample_chunk ''doc_1'' ''a.txt'' ''alpha beta'') = [''alpha'', ''beta'']"
  "tokens (sample_chunk ''doc_2'' ''b.txt'' ''gamma delta'') = [''gamma'', ''delta'']"
  "tokens (sample_chunk ''doc_3'' ''c.txt'' ''epsilon zeta'') = [''epsilon'', ''zeta'']"
  by code_simp+

lemma engine4_chunks:
  "chunks engine4 =
     [sample_chunk ''doc_1'' ''a.txt'' ''alpha beta'',
      sample_chunk ''doc_2'' ''b.txt'' ''gamma delta'',
      sample_chunk ''doc_3'' ''c.txt'' ''epsilon zeta'',
      sample_chunk ''doc_4'' ''d.txt'' ''alpha'']"
  by code_simp

lemma sample_chunk_tokens4: "tokens (sample_chunk ''doc_4'' ''d.txt'' ''alpha'') = [''alpha'']"
  by code_simp

lemma engine3_scores:
  "map (\<lambda>chunk. (chunk, calculateRelevanceScore engine3 (tokenize ''alpha'') (tokens chunk)))
       (chunks engine3) =
     [(sample_chunk ''doc_1'' ''a.txt'' ''alpha beta'', ln (3 / 2) / 2),
      (sample_chunk ''doc_2'' ''b.txt'' ''gamma delta'', 0),
      (sample_chunk ''doc_3'' ''c.txt'' ''epsilon zeta'', 0)]"
  by (simp add: query_alpha engine3_chunks sample_chunk_tokens
      calculateRelevanceScore_def running_total_def accumulate_def tf_def idf_def docsWithTerm_def)

lemma engine3_sorted:
  "sort_key (\<lambda>item. - snd item)
       (map (\<lambda>chunk. (chunk, calculateRelevanceScore engine3 (tokenize ''alpha'') (tokens chunk)))
          (chunks engine3)) =
     [(sample_chunk ''doc_1'' ''a.txt'' ''alpha beta'', ln (3 / 2) / 2),
      (sample_chunk ''doc_2'' ''b.txt'' ''gamma delta'', 0),
      (sample_chunk ''doc_3'' ''c.txt'' ''epsilon zeta'', 0)]"
proof -
  have pos: "0 < ln (3 / 2 :: real)" by simp
  then show ?thesis by (simp add: engine3_scores)
qed



lemma engine3_nonempty: "length (chunks engine3) \<noteq> 0"
  by (simp add: engine3_chunks)

lemma retrieve_nonempty:
  "length (chunks eng) \<noteq> 0 \<Longrightarrow>
   retrieveRelevantChunks eng query topK =
     map (\<lambda>item. \<lparr>r_content = content (fst item), r_docName = docName (fst item),
                    score = snd item, chunkId = chunk_id (fst item)\<rparr>)
       (filter (\<lambda>item. snd item > 0)
         (slice_to topK
           (sort_key (\<lambda>item. - snd item)
             (map (\<lambda>chunk. (chunk, calculateRelevanceScore eng (tokenize query) (tokens chunk)))
                (chunks eng)))))"
  by (simp add: retrieveRelevantChunks_def retrieve_with_def Let_def)

lemma engine3_retrieve:
  "retrieveRelevantChunks engine3 ''alpha'' 3 =
     [\<lparr>r_content = ''alpha beta'', r_docName = ''a.txt'', score = ln (3 / 2) / 2,
       chunkId = ''doc_1_chunk_0''\<rparr>]"
proof -
  have pos: "0 < ln (3 / 2 :: real)" by simp
  show ?thesis
    unfolding retrieve_nonempty [OF engine3_nonempty] engine3_sorted
    using pos by (simp add: slice_to_def sample_chunk_def)
qed


lemma engine3_retrieve_negative:
  "retrieveRelevantChunks engine3 ''alpha'' (- 1) =
     [\<lparr>r_content = ''alpha beta'', r_docName = ''a.txt'', score = ln (3 / 2) / 2,
       chunkId = ''doc_1_chunk_0''\<rparr>]"
proof -
  have pos: "0 < ln (3 / 2 :: real)" by simp
  show ?thesis
    unfolding retrieve_nonempty [OF engine3_nonempty] engine3_sorted
    using pos by (simp add: slice_to_def sample_chunk_def)
qed

lemma engine4_scores:
  "map (\<lambda>chunk. (chunk, calculateRelevanceScore engine4 (tokenize ''alpha'') (tokens chunk)))
       (chunks engine4) =
     [(sample_chunk ''doc_1'' ''a.txt'' ''alpha beta'', ln (4 / 3) / 2),
      (sample_chunk ''doc_2'' ''b.txt'' ''gamma delta'', 0),
      (sample_chunk ''doc_3'' ''c.txt'' ''epsilon zeta'', 0),
      (sample_chunk ''doc_4'' ''d.txt'' ''alpha'', ln (4 / 3))]"
  by (simp add: query_alpha engine4_chunks sample_chunk_tokens sample_chunk_tokens4
      calculateRelevanceScore_def running_total_def accumulate_def tf_def idf_def docsWithTerm_def)


lemma engine4_sorted:
  "sort_key (\<lambda>item. - snd item)
       (map (\<lambda>chunk. (chunk, calculateRelevanceScore engine4 (tokenize ''alpha'') (tokens chunk)))
          (chunks engine4)) =
     [(sample_chunk ''doc_4'' ''d.txt'' ''alpha'', ln (4 / 3)),
      (sample_chunk ''doc_1'' ''a.txt'' ''alpha beta'', ln (4 / 3) / 2),
      (sample_chunk ''doc_2'' ''b.txt'' ''gamma delta'', 0),
      (sample_chunk ''doc_3'' ''c.txt'' ''epsilon zeta'', 0)]"
proof -
  have pos: "0 < ln (4 / 3 :: real)" by simp
  have order: "\<not> - (ln (4 / 3 :: real) / 2) \<le> - ln (4 / 3)" "- (ln (4 / 3 :: real) / 2) \<le> 0"
     "- ln (4 / 3 :: real) \<le> 0" "\<not> 0 \<le> - ln (4 / 3 :: real)" "\<not> 0 \<le> - (ln (4 / 3 :: real) / 2)"
     "\<not> ln (4 / 3 :: real) \<le> 0" "0 \<le> ln (4 / 3 :: real)" "\<not> ln (4 / 3 :: real) < 0"
     "\<not> ln (4 / 3 :: real) \<le> ln (4 / 3) / 2" "\<not> ln (4 / 3 :: real) * 2 \<le> ln (4 / 3)"
    using pos by simp_all
  show ?thesis
    unfolding engine4_scores
    by (simp add: order del: ln_le_zero_iff ln_less_zero_iff ln_gt_zero_iff ln_ge_zero_iff)
qed


lemma engine4_nonempty: "length (chunks engine4) \<noteq> 0"
  by (simp add: engine4_chunks)

lemma engine4_retrieve:
  "map chunkId (retrieveRelevantChunks engine4 ''alpha'' 1) = [''doc_4_chunk_0'']"
proof -
  have pos: "0 < ln (4 / 3 :: real)" by simp
  show ?thesis
    unfolding retrieve_nonempty [OF engine4_nonempty] engine4_sorted
    using pos by (simp add: slice_to_def sample_chunk_def)
qed

lemma engine4_storage:
  "map chunk_id (chunks engine4)
     = [''doc_1_chunk_0'', ''doc_2_chunk_0'', ''doc_3_chunk_0'', ''doc_4_chunk_0'']"
  by (simp add: engine4_chunks sample_chunk_def)

section \<open>Retrieval: proofs\<close>

lemma filter_take_descending:
  fixes f :: "'a \<Rightarrow> real"
  assumes "sorted_wrt (\<lambda>a b. f b \<le> f a) xs"
  shows "filter (\<lambda>x. f x > 0) (take k xs) = take k (filter (\<lambda>x. f x > 0) xs)"
  using assms
proof (induction xs arbitrary: k)
  case Nil
  show ?case by simp
next
  case (Cons x xs)
  show ?case
  proof (cases k)
    case 0
    then show ?thesis by simp
  next
    case (Suc j)
    show ?thesis
    proof (cases "f x > 0")
      case True
      with Cons Suc show ?thesis by simp
    next
      case False
      with Cons.prems have "\<forall>y\<in>set xs. \<not> f y > 0" by fastforce
      then have "filter (\<lambda>x. f x > 0) xs = []" "filter (\<lambda>x. f x > 0) (take j xs) = []"
        by (auto simp: filter_empty_conv dest: in_set_takeD)
      with False Suc show ?thesis by simp
    qed
  qed
qed

lemma descending_sort_key:
  fixes f :: "'a \<Rightarrow> real"
  shows "sorted_wrt (\<lambda>a b. f b \<le> f a) (sort_key (\<lambda>x. - f x) xs)"
proof -
  have "sorted (map (\<lambda>x. - f x) (sort_key (\<lambda>x. - f x) xs))" by (rule sorted_sort_key)
  then show ?thesis by (simp add: sorted_map)
qed

lemma slice_to_take: "0 \<le> k \<Longrightarrow> slice_to k xs = take (nat k) xs"
  by (auto simp: slice_to_def Let_def min_def)

text \<open>
  Claim C1, as the code has it. For every state of the index, every query, every scorer
  and every \<open>topK\<close> that is not negative, the retrieval returns, for the chunks of the index
  in their storage order, each with the score of its tokens against the tokens of the
  query: the chunks in a stable sort by falling score, without those whose score is not
  positive, cut to the first \<open>topK\<close>, each as its content, the name of its document, its
  score and its identifier. \<open>retrieveRelevantChunks\<close> is this retrieval with
  \<open>calculateRelevanceScore\<close>. The result is in falling order of score, every score in it is
  positive, it has at most \<open>topK\<close> entries, and in the sorted list the chunks of one score
  are in their storage order.
\<close>

theorem C1_retrieve_ranked:
  assumes "0 \<le> topK"
  shows "retrieve_with scorer eng query topK =
       map (\<lambda>item. \<lparr>r_content = content (fst item), r_docName = docName (fst item),
                      score = snd item, chunkId = chunk_id (fst item)\<rparr>)
         (take (nat topK)
           (filter (\<lambda>item. 0 < snd item)
             (sort_key (\<lambda>item. - snd item)
               (map (\<lambda>c. (c, scorer (tokenize query) (tokens c))) (chunks eng))))) \<and>
     retrieveRelevantChunks eng query topK =
       map (\<lambda>item. \<lparr>r_content = content (fst item), r_docName = docName (fst item),
                      score = snd item, chunkId = chunk_id (fst item)\<rparr>)
         (take (nat topK)
           (filter (\<lambda>item. 0 < snd item)
             (sort_key (\<lambda>item. - snd item)
               (map (\<lambda>c. (c, calculateRelevanceScore eng (tokenize query) (tokens c)))
                  (chunks eng))))) \<and>
     sorted_wrt (\<lambda>a b. score b \<le> score a) (retrieve_with scorer eng query topK) \<and>
     list_all (\<lambda>r. 0 < score r) (retrieve_with scorer eng query topK) \<and>
     int (length (retrieve_with scorer eng query topK)) \<le> topK \<and>
     filter (\<lambda>item. snd item = s)
         (sort_key (\<lambda>item. - snd item)
           (map (\<lambda>c. (c, scorer (tokenize query) (tokens c))) (chunks eng)))
       = filter (\<lambda>item. snd item = s)
           (map (\<lambda>c. (c, scorer (tokenize query) (tokens c))) (chunks eng))"
proof -
  let ?fields = "\<lambda>item :: chunk \<times> real.
      \<lparr>r_content = content (fst item), r_docName = docName (fst item),
       score = snd item, chunkId = chunk_id (fst item)\<rparr>"
  have general: "retrieve_with sc eng query topK =
      map ?fields (take (nat topK) (filter (\<lambda>item. 0 < snd item)
        (sort_key (\<lambda>item. - snd item)
          (map (\<lambda>c. (c, sc (tokenize query) (tokens c))) (chunks eng)))))" for sc
  proof (cases "chunks eng = []")
    case True
    then show ?thesis by (simp add: retrieve_with_def)
  next
    case False
    let ?sorted = "sort_key (\<lambda>item. - snd item)
        (map (\<lambda>c. (c, sc (tokenize query) (tokens c))) (chunks eng))"
    have "sorted_wrt (\<lambda>a b. snd b \<le> snd a) ?sorted"
      by (rule descending_sort_key)
    then have "filter (\<lambda>item. 0 < snd item) (take (nat topK) ?sorted)
        = take (nat topK) (filter (\<lambda>item. 0 < snd item) ?sorted)"
      by (rule filter_take_descending)
    with False assms show ?thesis
      by (simp add: retrieve_with_def slice_to_take Let_def)
  qed
  let ?sorted = "sort_key (\<lambda>item. - snd item)
      (map (\<lambda>c. (c, scorer (tokenize query) (tokens c))) (chunks eng))"
  let ?kept = "take (nat topK) (filter (\<lambda>item. 0 < snd item) ?sorted)"
  have eq: "retrieve_with scorer eng query topK = map ?fields ?kept"
    by (rule general)
  have real: "retrieveRelevantChunks eng query topK =
      map ?fields (take (nat topK) (filter (\<lambda>item. 0 < snd item)
        (sort_key (\<lambda>item. - snd item)
          (map (\<lambda>c. (c, calculateRelevanceScore eng (tokenize query) (tokens c)))
             (chunks eng)))))"
    unfolding retrieveRelevantChunks_def by (rule general)
  have desc: "sorted_wrt (\<lambda>a b. snd b \<le> snd a) ?sorted"
    by (rule descending_sort_key)
  then have "sorted_wrt (\<lambda>a b. snd b \<le> snd a) (filter (\<lambda>item. 0 < snd item) ?sorted)"
    by (rule sorted_wrt_filter)
  then have "sorted_wrt (\<lambda>a b. snd b \<le> snd a) ?kept"
    by (rule sorted_wrt_take)
  then have ordered: "sorted_wrt (\<lambda>a b. score b \<le> score a) (retrieve_with scorer eng query topK)"
    by (simp add: eq sorted_wrt_map)
  have positive: "list_all (\<lambda>r. 0 < score r) (retrieve_with scorer eng query topK)"
    by (auto simp: eq list_all_iff dest!: in_set_takeD)
  have short: "int (length (retrieve_with scorer eng query topK)) \<le> topK"
    using assms by (simp add: eq)
  have stable: "filter (\<lambda>item. snd item = s) ?sorted
      = filter (\<lambda>item. snd item = s) (map (\<lambda>c. (c, scorer (tokenize query) (tokens c))) (chunks eng))"
    using sort_key_stable [of "\<lambda>item. - snd item" "- s"
        "map (\<lambda>c. (c, scorer (tokenize query) (tokens c))) (chunks eng)"] by simp
  show ?thesis
    by (rule conjI [OF eq conjI [OF real conjI [OF ordered conjI [OF positive conjI [OF short stable]]]]])
qed


theorem C1_retrieve_ranked_witness:
  "(0::int) \<le> 1 \<and>
   map chunk_id (chunks engine4)
     = [''doc_1_chunk_0'', ''doc_2_chunk_0'', ''doc_3_chunk_0'', ''doc_4_chunk_0''] \<and>
   map chunkId (retrieveRelevantChunks engine4 ''alpha'' 1) = [''doc_4_chunk_0''] \<and>
   retrieveRelevantChunks engine4 ''alpha'' 1 =
       map (\<lambda>item. \<lparr>r_content = content (fst item), r_docName = docName (fst item),
                      score = snd item, chunkId = chunk_id (fst item)\<rparr>)
         (take (nat 1)
           (filter (\<lambda>item. 0 < snd item)
             (sort_key (\<lambda>item. - snd item)
               (map (\<lambda>c. (c, calculateRelevanceScore engine4 (tokenize ''alpha'') (tokens c)))
                  (chunks engine4))))) \<and>
   int (length (retrieve_with (calculateRelevanceScore engine4) engine4 ''alpha'' 1)) \<le> 1"
proof -
  have h: "(0::int) \<le> 1" by simp
  note ranked = C1_retrieve_ranked [OF h, of "calculateRelevanceScore engine4" engine4 "''alpha''" 0]
  from ranked have real: "retrieveRelevantChunks engine4 ''alpha'' 1 =
       map (\<lambda>item. \<lparr>r_content = content (fst item), r_docName = docName (fst item),
                      score = snd item, chunkId = chunk_id (fst item)\<rparr>)
         (take (nat 1)
           (filter (\<lambda>item. 0 < snd item)
             (sort_key (\<lambda>item. - snd item)
               (map (\<lambda>c. (c, calculateRelevanceScore engine4 (tokenize ''alpha'') (tokens c)))
                  (chunks engine4)))))"
    by (elim conjE)
  from ranked have short:
    "int (length (retrieve_with (calculateRelevanceScore engine4) engine4 ''alpha'' 1)) \<le> 1"
    by (elim conjE)
  show ?thesis
    by (rule conjI [OF h conjI [OF engine4_storage conjI [OF engine4_retrieve conjI [OF real short]]]])
qed

text \<open>
  Claim C1 as stated fails for a negative \<open>topK\<close>, which \<open>slice\<close> counts from the end: with
  \<open>topK = -1\<close> the retrieval drops the last of the three sorted chunks and returns the
  one with a positive score, where a cut to \<open>topK\<close> entries leaves none.
\<close>

theorem C1_negative_topK_counterexample:
  "map chunkId (retrieveRelevantChunks engine3 ''alpha'' (- 1)) = [''doc_1_chunk_0''] \<and>
   \<not> int (length (retrieveRelevantChunks engine3 ''alpha'' (- 1))) \<le> - 1 \<and>
   take (nat (- 1))
     (filter (\<lambda>item. 0 < snd item)
       (sort_key (\<lambda>item. - snd item)
         (map (\<lambda>c. (c, calculateRelevanceScore engine3 (tokenize ''alpha'') (tokens c)))
            (chunks engine3)))) = []"
  by (simp add: engine3_retrieve_negative)

section \<open>Statistics: proofs\<close>

lemma total_size_foldl:
  "foldl (\<lambda>sum doc. sum + length (doc_content doc)) a (map snd ds)
      = a + sum_list (map (\<lambda>p. length (doc_content (snd p))) ds)"
  by (induction ds arbitrary: a) simp_all

text \<open>
  Claim C2. \<open>getStats\<close> is a function of the state and changes nothing. The object it
  returns has the properties \<open>documentCount\<close> (the number of stored documents),
  \<open>chunkCount\<close> (the number of stored chunks) and \<open>totalSize\<close> (the sum of the lengths of
  the stored documents' contents). It has no property \<open>totalChars\<close>, the name under which
  \<open>updateStats\<close> reads the character count, so the display of the count is never set.
\<close>

theorem C2_getStats_fields:
  "map fst (getStats eng) = [''documentCount'', ''chunkCount'', ''totalSize''] \<and>
   map_of (getStats eng) ''documentCount'' = Some (length (documents eng)) \<and>
   map_of (getStats eng) ''chunkCount'' = Some (length (chunks eng)) \<and>
   map_of (getStats eng) ''totalSize''
     = Some (sum_list (map (\<lambda>p. length (doc_content (snd p))) (documents eng))) \<and>
   map_of (getStats eng) ''totalChars'' = None \<and>
   updateStats_charCount eng = None"
  by (simp add: getStats_def updateStats_charCount_def total_size_foldl)

section \<open>Scope: the retrieval of a conversation\<close>

lemma sample_listed:
  "listed_documents sample_app (map snd (documents (ragEngine sample_app))) = []"
  by code_simp

lemma sample_retrieved:
  "map chunkId (handleSendMessage_chunks sample_app ''alpha'') = [''doc_1_chunk_0'']"
  by (simp add: handleSendMessage_chunks_def sample_app_def engine3_retrieve)

lemma sample_scopes:
  "map (\<lambda>(d, doc). (d, chatId doc)) (documents (ragEngine sample_app))
     = [(''doc_1'', ''chat_1''), (''doc_2'', ''global''), (''doc_3'', ''global'')]"
  by (simp add: sample_app_def engine3_documents)

lemma sample_owners:
  "map docId (chunks (ragEngine sample_app)) = [''doc_1'', ''doc_2'', ''doc_3'']"
  by (simp add: sample_app_def engine3_chunks sample_chunk_def)

lemma sample_upload:
  "ragEngine (handleFileUpload_file
       \<lparr>ragEngine = new_engine, currentChatId = ''chat_1'', chatSpecificKnowledge = True,
          topKChunks = 3\<rparr>
       (quiet_world ''doc_1'') ''a.txt'' ''alpha beta'') = engine1"
  by (simp add: handleFileUpload_file_def upload_scope_def engine1_def)

lemma sample_chat:
  "currentChatId sample_app = ''chat_2'' \<and> chatSpecificKnowledge sample_app"
  by (simp add: sample_app_def)

text \<open>
  Claim C3. Chunks of a document scoped to one conversation should be visible to that
  conversation only. The code does not do this: in the sample state the document
  \<open>doc_1\<close> is scoped to \<open>chat_1\<close> (it was added there with the chat-specific knowledge
  base switched on), the current conversation is \<open>chat_2\<close> with the chat-specific
  knowledge base switched on, the list of documents shown to \<open>chat_2\<close> is empty, and the
  message \<open>alpha\<close> still retrieves the chunk of \<open>doc_1\<close>.
\<close>

theorem C3_scope_not_applied:
  "map chunkId (handleSendMessage_chunks sample_app ''alpha'') = [''doc_1_chunk_0''] \<and>
   map (\<lambda>(d, doc). (d, chatId doc)) (documents (ragEngine sample_app))
     = [(''doc_1'', ''chat_1''), (''doc_2'', ''global''), (''doc_3'', ''global'')] \<and>
   map docId (chunks (ragEngine sample_app)) = [''doc_1'', ''doc_2'', ''doc_3''] \<and>
   (currentChatId sample_app = ''chat_2'' \<and> chatSpecificKnowledge sample_app) \<and>
   listed_documents sample_app (map snd (documents (ragEngine sample_app))) = []"
  by (rule conjI [OF sample_retrieved conjI [OF sample_scopes conjI [OF sample_owners
        conjI [OF sample_chat sample_listed]]]])

section \<open>Relevance scorer: proofs\<close>

lemma idf_single:
  assumes "chunks eng = [c]" and "token \<in> set (tokens c)"
  shows "idf eng token = ln (1 / 2)"
  using assms by (simp add: idf_def docsWithTerm_def)

lemma occurs_once_member:
  assumes "length (filter (\<lambda>t. t = token) ts) = 1"
  shows "token \<in> set ts"
proof (rule ccontr)
  assume "token \<notin> set ts"
  then have "filter (\<lambda>t. t = token) ts = []" by (auto simp: filter_empty_conv)
  with assms show False by simp
qed


text \<open>
  Claim C7. The score is not clamped at zero. In a corpus of exactly one chunk that holds
  a token exactly once, the \<open>idf\<close> of that token is \<open>ln (1/2)\<close>, which is negative, and the
  score of the query made of that token alone against that chunk is \<open>ln (1/2)\<close> divided
  by the number of tokens of the chunk: strictly negative, with its sign kept.
\<close>

theorem C7_negative_score:
  assumes "chunks eng = [c]" and "length (filter (\<lambda>t. t = token) (tokens c)) = 1"
  shows "idf eng token = ln (1 / 2) \<and> idf eng token < 0 \<and>
     calculateRelevanceScore eng [token] (tokens c) = ln (1 / 2) / real (length (tokens c)) \<and>
     calculateRelevanceScore eng [token] (tokens c) < 0"
proof -
  from assms(2) have mem: "token \<in> set (tokens c)"
    by (rule occurs_once_member)
  then have ne: "tokens c \<noteq> []" by auto
  have i: "idf eng token = ln (1 / 2)"
    using assms(1) mem by (rule idf_single)
  have neg: "ln (1 / 2 :: real) < 0" by simp
  have t: "tf (tokens c) token = 1 / real (length (tokens c))"
    using assms(2) by (simp add: tf_def)
  have "running_total eng [token] (tokens c) = tf (tokens c) token * idf eng token"
    using mem by (simp add: running_total_def accumulate_def)
  then have s: "calculateRelevanceScore eng [token] (tokens c) = ln (1 / 2) / real (length (tokens c))"
    using ne by (simp add: calculateRelevanceScore_def t i)
  have "0 < real (length (tokens c))"
    using ne by simp
  then have "ln (1 / 2) / real (length (tokens c)) < 0"
    using neg by (rule divide_neg_pos [rotated])
  with i neg s show ?thesis by simp
qed

theorem C7_negative_score_witness:
  "chunks engine1 = [sample_chunk ''doc_1'' ''a.txt'' ''alpha beta''] \<and>
   length (filter (\<lambda>t. t = ''alpha'') (tokens (sample_chunk ''doc_1'' ''a.txt'' ''alpha beta''))) = 1 \<and>
   idf engine1 ''alpha'' = ln (1 / 2) \<and> idf engine1 ''alpha'' < 0 \<and>
   calculateRelevanceScore engine1 [''alpha''] (tokens (sample_chunk ''doc_1'' ''a.txt'' ''alpha beta''))
     = ln (1 / 2) / real (length (tokens (sample_chunk ''doc_1'' ''a.txt'' ''alpha beta''))) \<and>
   calculateRelevanceScore engine1 [''alpha''] (tokens (sample_chunk ''doc_1'' ''a.txt'' ''alpha beta'')) < 0"
proof -
  have once: "length (filter (\<lambda>t. t = ''alpha'')
      (tokens (sample_chunk ''doc_1'' ''a.txt'' ''alpha beta''))) = 1"
    by (simp add: sample_chunk_tokens)
  show ?thesis
    by (rule conjI [OF engine1_chunks conjI [OF once C7_negative_score [OF engine1_chunks once]]])
qed

lemma running_total_foldl:
  "foldl (accumulate eng ct) a q
     = a + sum_list (map (\<lambda>t. if t \<in> set ct then tf ct t * idf eng t else 0) q)"
  by (induction q arbitrary: a) (simp_all add: accumulate_def)

lemma sum_list_count:
  fixes g :: "'a \<Rightarrow> real"
  shows "sum_list (map g xs) = (\<Sum>x\<in>set xs. real (count_list xs x) * g x)"
proof (induction xs)
  case Nil
  show ?case by simp
next
  case (Cons a xs)
  have "(\<Sum>x\<in>set (a # xs). real (count_list (a # xs) x) * g x)
      = (\<Sum>x\<in>insert a (set xs). (if x = a then g a else 0) + real (count_list xs x) * g x)"
    by (rule sum.cong) (auto simp: algebra_simps)
  also have "\<dots> = (\<Sum>x\<in>insert a (set xs). if x = a then g a else 0)
      + (\<Sum>x\<in>insert a (set xs). real (count_list xs x) * g x)"
    by (rule sum.distrib)
  also have "(\<Sum>x\<in>insert a (set xs). if x = a then g a else 0) = g a"
    by simp
  also have "(\<Sum>x\<in>insert a (set xs). real (count_list xs x) * g x)
      = (\<Sum>x\<in>set xs. real (count_list xs x) * g x)"
    by (rule sum.mono_neutral_right) auto
  finally show ?case using Cons by simp
qed

text \<open>
  Claim C8. In a corpus that is not empty, the loop that accumulates the score runs over
  the query tokens as they come, not over their set: the running total is the sum, over
  the distinct query tokens that the chunk holds, of the number of occurrences in the
  query times \<open>tf * idf\<close>. One more
  occurrence of a token of the chunk adds its \<open>tf * idf\<close> once more, and a query of
  \<open>k + 1\<close> copies of the token scores \<open>(k + 1) * tf * idf / sqrt (k + 1)\<close>.
\<close>

theorem C8_duplicates_amplify:
  assumes "chunks eng \<noteq> []" and "token \<in> set chunkTokens"
  shows "running_total eng queryTokens chunkTokens
       = (\<Sum>t\<in>set queryTokens \<inter> set chunkTokens.
            real (count_list queryTokens t) * (tf chunkTokens t * idf eng t)) \<and>
     running_total eng (queryTokens @ [token]) chunkTokens
       = running_total eng queryTokens chunkTokens + tf chunkTokens token * idf eng token \<and>
     calculateRelevanceScore eng (replicate (Suc k) token) chunkTokens
       = real (Suc k) * (tf chunkTokens token * idf eng token) / sqrt (real (Suc k))"
proof -
  let ?g = "\<lambda>t. if t \<in> set chunkTokens then tf chunkTokens t * idf eng t else 0"
  have "running_total eng queryTokens chunkTokens
      = (\<Sum>t\<in>set queryTokens. real (count_list queryTokens t) * ?g t)"
    by (simp add: running_total_def running_total_foldl sum_list_count)
  also have "\<dots> = (\<Sum>t\<in>set queryTokens \<inter> set chunkTokens.
            real (count_list queryTokens t) * (tf chunkTokens t * idf eng t))"
    by (rule sum.mono_neutral_cong_right) auto
  finally have a: "running_total eng queryTokens chunkTokens
       = (\<Sum>t\<in>set queryTokens \<inter> set chunkTokens.
            real (count_list queryTokens t) * (tf chunkTokens t * idf eng t))" .
  have b: "running_total eng (queryTokens @ [token]) chunkTokens
       = running_total eng queryTokens chunkTokens + tf chunkTokens token * idf eng token"
    using assms(2) by (simp add: running_total_def accumulate_def)
  have "running_total eng (replicate (Suc k) token) chunkTokens
      = real (Suc k) * (tf chunkTokens token * idf eng token)"
    unfolding running_total_def running_total_foldl
    using assms(2) by (simp add: sum_list_replicate del: replicate.simps)
  moreover have "chunkTokens \<noteq> []" using assms(2) by auto
  ultimately have c: "calculateRelevanceScore eng (replicate (Suc k) token) chunkTokens
       = real (Suc k) * (tf chunkTokens token * idf eng token) / sqrt (real (Suc k))"
    by (simp add: calculateRelevanceScore_def)
  from a b c show ?thesis by blast
qed

theorem C8_duplicates_amplify_witness:
  "chunks engine3 \<noteq> [] \<and> ''alpha'' \<in> set [''alpha'', ''beta''] \<and>
   running_total engine3 [''alpha'', ''alpha''] [''alpha'', ''beta'']
     = (\<Sum>t\<in>set [''alpha'', ''alpha''] \<inter> set [''alpha'', ''beta''].
          real (count_list [''alpha'', ''alpha''] t) * (tf [''alpha'', ''beta''] t * idf engine3 t)) \<and>
   running_total engine3 ([''alpha'', ''alpha''] @ [''alpha'']) [''alpha'', ''beta'']
     = running_total engine3 [''alpha'', ''alpha''] [''alpha'', ''beta'']
       + tf [''alpha'', ''beta''] ''alpha'' * idf engine3 ''alpha'' \<and>
   calculateRelevanceScore engine3 (replicate (Suc 1) ''alpha'') [''alpha'', ''beta'']
     = real (Suc 1) * (tf [''alpha'', ''beta''] ''alpha'' * idf engine3 ''alpha'') / sqrt (real (Suc 1))"
proof -
  have c: "chunks engine3 \<noteq> []" by (simp add: engine3_chunks)
  have h: "''alpha'' \<in> set [''alpha'', ''beta'']" by simp
  show ?thesis
    by (rule conjI [OF c conjI [OF h C8_duplicates_amplify [OF c h, of "[''alpha'', ''alpha'']" 1]]])
qed

section \<open>Ingestion: proofs\<close>

lemma addDocument_state:
  "snd (addDocument eng w fileName text chat) =
     eng\<lparr>documents := AList.update (generated_id w)
            \<lparr>doc_id = generated_id w, name = fileName, doc_content = text, addedAt = timestamp w,
             chunkCount = length (chunkDocument eng (timestamp w) text (generated_id w) fileName),
             chatId = chat\<rparr> (documents eng),
         chunks := chunks eng @ chunkDocument eng (timestamp w) text (generated_id w) fileName\<rparr>"
  by (cases "saveDocument w"; cases "saveChunks w") (simp_all add: addDocument_def Let_def)

lemma addDocument_result:
  "fst (addDocument eng w fileName text chat) =
     (case saveDocument w of
        Rejected msg \<Rightarrow> AddFailed msg
      | Resolved \<Rightarrow>
          (case saveChunks w of
             Rejected msg \<Rightarrow> AddFailed msg
           | Resolved \<Rightarrow> Added (generated_id w)
               (length (chunkDocument eng (timestamp w) text (generated_id w) fileName))))"
  by (cases "saveDocument w"; cases "saveChunks w") (simp_all add: addDocument_def Let_def)

text \<open>
  Claim C10. Ingestion is not atomic with respect to a failure of the store. When
  \<open>saveDocument\<close> or \<open>saveChunks\<close> rejects, \<open>addDocument\<close> returns the failure result with
  the store's message, and the state it leaves holds the document under its identifier
  and all its chunks after the chunks that were there: the same state as after an
  ingestion whose store requests succeed, so queries and statistics see the document.
\<close>

theorem C10_ingestion_not_atomic:
  assumes "saveDocument w = Rejected msg \<or> (saveDocument w = Resolved \<and> saveChunks w = Rejected msg)"
  shows "fst (addDocument eng w fileName text chat) = AddFailed msg \<and>
     map_of (documents (snd (addDocument eng w fileName text chat))) (generated_id w)
       = Some \<lparr>doc_id = generated_id w, name = fileName, doc_content = text, addedAt = timestamp w,
             chunkCount = length (chunkDocument eng (timestamp w) text (generated_id w) fileName),
             chatId = chat\<rparr> \<and>
     chunks (snd (addDocument eng w fileName text chat))
       = chunks eng @ chunkDocument eng (timestamp w) text (generated_id w) fileName \<and>
     snd (addDocument eng w fileName text chat)
       = snd (addDocument eng (w\<lparr>saveDocument := Resolved, saveChunks := Resolved\<rparr>) fileName text chat)"
proof -
  have failed: "fst (addDocument eng w fileName text chat) = AddFailed msg"
    using assms unfolding addDocument_result by auto
  have doc: "map_of (documents (snd (addDocument eng w fileName text chat))) (generated_id w)
       = Some \<lparr>doc_id = generated_id w, name = fileName, doc_content = text, addedAt = timestamp w,
             chunkCount = length (chunkDocument eng (timestamp w) text (generated_id w) fileName),
             chatId = chat\<rparr>"
    unfolding addDocument_state by (simp add: update_conv')
  have chs: "chunks (snd (addDocument eng w fileName text chat))
       = chunks eng @ chunkDocument eng (timestamp w) text (generated_id w) fileName"
    unfolding addDocument_state by simp
  have same: "snd (addDocument eng w fileName text chat)
       = snd (addDocument eng (w\<lparr>saveDocument := Resolved, saveChunks := Resolved\<rparr>) fileName text chat)"
    unfolding addDocument_state by simp
  from failed doc chs same show ?thesis by blast
qed

theorem C10_ingestion_not_atomic_witness:
  "saveDocument failing_world = Rejected ''QuotaExceededError'' \<and>
   fst (addDocument engine1 failing_world ''z.txt'' ''omega'' ''global'') = AddFailed ''QuotaExceededError'' \<and>
   map_of (documents (snd (addDocument engine1 failing_world ''z.txt'' ''omega'' ''global'')))
       (generated_id failing_world)
     = Some \<lparr>doc_id = generated_id failing_world, name = ''z.txt'', doc_content = ''omega'',
             addedAt = timestamp failing_world,
             chunkCount = length (chunkDocument engine1 (timestamp failing_world) ''omega''
                (generated_id failing_world) ''z.txt''),
             chatId = ''global''\<rparr> \<and>
   chunks (snd (addDocument engine1 failing_world ''z.txt'' ''omega'' ''global''))
     = chunks engine1 @ chunkDocument engine1 (timestamp failing_world) ''omega''
         (generated_id failing_world) ''z.txt'' \<and>
   snd (addDocument engine1 failing_world ''z.txt'' ''omega'' ''global'')
     = snd (addDocument engine1 (failing_world\<lparr>saveDocument := Resolved, saveChunks := Resolved\<rparr>)
         ''z.txt'' ''omega'' ''global'')"
proof -
  have h: "saveDocument failing_world = Rejected ''QuotaExceededError''"
    by (simp add: failing_world_def quiet_world_def)
  then have h': "saveDocument failing_world = Rejected ''QuotaExceededError'' \<or>
      (saveDocument failing_world = Resolved \<and> saveChunks failing_world = Rejected ''QuotaExceededError'')"
    by (rule disjI1)
  show ?thesis
    by (rule conjI [OF h C10_ingestion_not_atomic [OF h']])
qed

lemma failed_ingestion_visible:
  "map fst (documents (snd (addDocument engine1 failing_world ''z.txt'' ''omega'' ''global'')))
     = [''doc_1'', ''doc_9''] \<and>
   map chunk_id (chunks (snd (addDocument engine1 failing_world ''z.txt'' ''omega'' ''global'')))
     = [''doc_1_chunk_0'', ''doc_9_chunk_0''] \<and>
   getStats (snd (addDocument engine1 failing_world ''z.txt'' ''omega'' ''global''))
     = [(''documentCount'', 2), (''chunkCount'', 2), (''totalSize'', 15)]"
  by code_simp

section \<open>Chunker: proofs\<close>

lemma split_on_nonempty: "split_on d s \<noteq> []"
  by (induction s) (auto split: list.splits)

lemma concat_split_on: "concat (map (\<lambda>l. d # l) (split_on d s)) = d # s"
proof (induction s)
  case Nil
  show ?case by simp
next
  case (Cons c cs)
  then show ?case
    using split_on_nonempty [of d cs] by (auto split: list.splits)
qed

lemma total_split_on:
  "sum_list (map (\<lambda>l. int (length l) + 1) (split_on d s)) = int (length s) + 1"
proof (induction s)
  case Nil
  show ?case by simp
next
  case (Cons c cs)
  then show ?case
    using split_on_nonempty [of d cs] by (auto split: list.splits)
qed

lemma appended_nonempty: "x \<noteq> [] \<Longrightarrow> appended x l \<noteq> []"
  by (simp add: appended_def)

lemma foldl_appended_nonempty:
  "x \<noteq> [] \<Longrightarrow> foldl appended x ls = x @ concat (map (\<lambda>l. newline # l) ls)"
proof (induction ls arbitrary: x)
  case Nil
  show ?case by simp
next
  case (Cons l ls)
  from Cons.prems have "appended x l \<noteq> []" by (rule appended_nonempty)
  then have "foldl appended (appended x l) ls = appended x l @ concat (map (\<lambda>l. newline # l) ls)"
    by (rule Cons.IH)
  moreover have "appended x l = x @ newline # l"
    using Cons.prems by (simp add: appended_def)
  ultimately show ?case by simp
qed

lemma foldl_appended_split:
  "foldl appended [] (split_on newline s) = dropWhile (\<lambda>c. c = newline) s"
proof (induction s)
  case Nil
  have "appended [] [] = []" by (simp add: appended_def)
  then show ?case by simp
next
  case (Cons c cs)
  show ?case
  proof (cases "c = newline")
    case True
    have "appended [] [] = []" by (simp add: appended_def)
    with True Cons show ?thesis by simp
  next
    case False
    obtain t ts where sp: "split_on newline cs = t # ts"
      using split_on_nonempty [of newline cs] by (cases "split_on newline cs") auto
    have "newline # t @ concat (map (\<lambda>l. newline # l) ts) = newline # cs"
      using concat_split_on [of newline cs] sp by simp
    then have rest: "t @ concat (map (\<lambda>l. newline # l) ts) = cs" by simp
    have "appended [] (c # t) = c # t" by (simp add: appended_def)
    then have "foldl appended [] (split_on newline (c # cs)) = foldl appended (c # t) ts"
      using False sp by simp
    also have "\<dots> = (c # t) @ concat (map (\<lambda>l. newline # l) ts)"
      by (rule foldl_appended_nonempty) simp
    also have "\<dots> = c # cs" using rest by simp
    finally show ?thesis using False by simp
  qed
qed

lemma chunk_step_no_close:
  assumes "int (length cur) + int (length line) + 1 \<le> chunkSize eng"
  shows "chunk_step eng now d f (chs, cur, idx) line = (chs, appended cur line, idx)"
  using assms by (simp add: chunk_step_def appended_def)

lemma length_appended: "int (length (appended cur line)) \<le> int (length cur) + int (length line) + 1"
  by (simp add: appended_def)

lemma foldl_chunk_step_no_close:
  assumes "int (length cur) + sum_list (map (\<lambda>l. int (length l) + 1) ls) \<le> chunkSize eng"
  shows "foldl (chunk_step eng now d f) (chs, cur, idx) ls = (chs, foldl appended cur ls, idx)"
  using assms
proof (induction ls arbitrary: cur)
  case Nil
  show ?case by simp
next
  case (Cons l ls)
  have nonneg: "0 \<le> sum_list (map (\<lambda>l. int (length l) + 1) ls)"
    by (rule sum_list_nonneg) auto
  with Cons.prems have "int (length cur) + int (length l) + 1 \<le> chunkSize eng" by simp
  then have step: "chunk_step eng now d f (chs, cur, idx) l = (chs, appended cur l, idx)"
    by (rule chunk_step_no_close)
  have "int (length (appended cur l)) + sum_list (map (\<lambda>l. int (length l) + 1) ls) \<le> chunkSize eng"
    using Cons.prems length_appended [of cur l] by simp
  then have "foldl (chunk_step eng now d f) (chs, appended cur l, idx) ls
      = (chs, foldl appended (appended cur l) ls, idx)"
    by (rule Cons.IH)
  with step show ?case by simp
qed

lemma dropWhile_weaker:
  assumes "\<And>x. P x \<Longrightarrow> Q x"
  shows "dropWhile Q (dropWhile P xs) = dropWhile Q xs"
  using assms by (induction xs) auto

lemma trim_leading_newlines: "trim (dropWhile (\<lambda>c. c = newline) s) = trim s"
proof -
  have "dropWhile is_space (dropWhile (\<lambda>c. c = newline) s) = dropWhile is_space s"
    by (rule dropWhile_weaker) (simp add: is_space_def newline_def)
  then show ?thesis by (simp add: trim_def)
qed

lemma short_text_buffer:
  assumes "int (length text) < chunkSize eng"
  shows "foldl (chunk_step eng now d f) ([], [], 0) (split_on newline text)
     = ([], dropWhile (\<lambda>c. c = newline) text, 0)"
proof -
  have "int (length ([]::string)) + sum_list (map (\<lambda>l. int (length l) + 1) (split_on newline text))
      \<le> chunkSize eng"
    using assms by (simp add: total_split_on)
  then have "foldl (chunk_step eng now d f) ([], [], 0) (split_on newline text)
      = ([], foldl appended [] (split_on newline text), 0)"
    by (rule foldl_chunk_step_no_close)
  then show ?thesis by (simp add: foldl_appended_split)
qed

lemma slice_from_last_words:
  "1 \<le> n \<Longrightarrow> slice_from (- n) ws = last_words (nat n) ws"
  by (auto simp: slice_from_def last_words_def Let_def max_def nat_diff_distrib' intro: arg_cong [where f = "\<lambda>k. drop k ws"])


lemma closes_iff: "closes eng buffer line \<longleftrightarrow>
    int (length buffer) + int (length line) > chunkSize eng \<and> length buffer > 0"
  by (simp add: closes_def)

text \<open>
  Claim C5, as the code has it. For every content shorter than \<open>chunkSize\<close>: when the
  content has a character other than a line break, the chunker returns exactly one chunk,
  with ordinal 0, and its stored content is the input trimmed of leading and trailing
  whitespace; when the content is empty or made of line breaks only, the chunker returns
  no chunk.
\<close>

theorem C5_short_content_one_chunk:
  assumes "int (length text) < chunkSize eng"
  shows "if list_all (\<lambda>c. c = newline) text
     then chunkDocument eng now text d f = []
     else (chunkDocument eng now text d f
            = [createChunk now (dropWhile (\<lambda>c. c = newline) text) d f 0] \<and>
          map content (chunkDocument eng now text d f) = [trim text])"
proof -
  have empty: "dropWhile (\<lambda>c. c = newline) text = [] \<longleftrightarrow> list_all (\<lambda>c. c = newline) text"
    by (simp add: dropWhile_eq_Nil_conv list_all_iff)
  have "chunkDocument eng now text d f
      = (if dropWhile (\<lambda>c. c = newline) text = [] then []
         else [createChunk now (dropWhile (\<lambda>c. c = newline) text) d f 0])"
    by (simp add: chunkDocument_def short_text_buffer [OF assms])
  then show ?thesis
    using empty by (simp add: createChunk_def trim_leading_newlines)
qed

theorem C5_short_content_one_chunk_witness:
  "int (length ''alpha beta'') < chunkSize new_engine \<and>
   (if list_all (\<lambda>c. c = newline) ''alpha beta''
    then chunkDocument new_engine ''t'' ''alpha beta'' ''doc_1'' ''a.txt'' = []
    else chunkDocument new_engine ''t'' ''alpha beta'' ''doc_1'' ''a.txt''
           = [createChunk ''t'' (dropWhile (\<lambda>c. c = newline) ''alpha beta'') ''doc_1'' ''a.txt'' 0] \<and>
         map content (chunkDocument new_engine ''t'' ''alpha beta'' ''doc_1'' ''a.txt'') = [trim ''alpha beta''])"
proof -
  have h: "int (length ''alpha beta'') < chunkSize new_engine"
    by (simp add: new_engine_def)
  show ?thesis
    by (rule conjI [OF h C5_short_content_one_chunk [OF h]])
qed

text \<open>
  Claim C5 as stated fails at the empty content: it is shorter than the default
  \<open>chunkSize\<close> of 600, and the chunker returns no chunk for it.
\<close>

theorem C5_empty_content_counterexample:
  "int (length ([]::string)) < chunkSize new_engine \<and>
   chunkDocument new_engine ''2024-01-01T00:00:00.000Z'' [] ''doc_1'' ''a.txt'' = []"
  by code_simp

lemma small_engine_config: "chunkSize small_engine = 10" "chunkOverlap small_engine = 10"
  by (simp_all add: small_engine_def updateConfig_def)

lemma small_engine_step:
  "chunk_step small_engine ''t'' ''doc_1'' ''a.txt'' ([], ''alpha beta gamma'', 0) ''delta''
     = ([createChunk ''t'' ''alpha beta gamma'' ''doc_1'' ''a.txt'' 0],
        ''beta gamma'' @ [newline] @ ''delta'', 1)"
  by code_simp

text \<open>
  Claim C6, as the code has it. In the loop over the lines, the chunker closes the
  current chunk, giving it the next ordinal, exactly when the length of the buffer plus
  the length of the next line, without the newline that would join them, is more than
  \<open>chunkSize\<close> and the buffer is not empty; otherwise it appends the line, after a newline
  when the buffer is not empty. When it closes a chunk and \<open>chunkOverlap\<close> is at least 5,
  the new buffer is the last \<open>floor(chunkOverlap / 5)\<close> words of the closed buffer, split on
  single spaces and joined with spaces, then a newline, then the line. After the last line
  a buffer that is not empty is closed as the final chunk.
\<close>

theorem C6_chunk_boundaries:
  "fst (chunk_step eng now d f (chs, buffer, ordinal) line)
     = (if int (length buffer) + int (length line) > chunkSize eng \<and> buffer \<noteq> []
        then chs @ [createChunk now buffer d f ordinal] else chs) \<and>
   snd (snd (chunk_step eng now d f (chs, buffer, ordinal) line))
     = (if int (length buffer) + int (length line) > chunkSize eng \<and> buffer \<noteq> []
        then Suc ordinal else ordinal) \<and>
   (\<not> (int (length buffer) + int (length line) > chunkSize eng \<and> buffer \<noteq> []) \<longrightarrow>
      fst (snd (chunk_step eng now d f (chs, buffer, ordinal) line))
        = buffer @ (if buffer = [] then [] else [newline]) @ line) \<and>
   (int (length buffer) + int (length line) > chunkSize eng \<and> buffer \<noteq> [] \<and>
    5 \<le> chunkOverlap eng \<longrightarrow>
      fst (snd (chunk_step eng now d f (chs, buffer, ordinal) line))
        = join [space]
            (drop (length (split_on space buffer) - nat (chunkOverlap eng div 5))
               (split_on space buffer))
          @ [newline] @ line) \<and>
   chunkDocument eng now body d f
     = (case foldl (chunk_step eng now d f) ([], [], 0) (split_on newline body) of
          (chs', buffer', ordinal') \<Rightarrow>
            if buffer' = [] then chs' else chs' @ [createChunk now buffer' d f ordinal'])"
proof -
  let ?close = "int (length buffer) + int (length line) > chunkSize eng \<and> buffer \<noteq> []"
  let ?step = "chunk_step eng now d f (chs, buffer, ordinal) line"
  have a: "fst ?step = (if ?close then chs @ [createChunk now buffer d f ordinal] else chs)"
    by (simp add: chunk_step_def Let_def)
  have b: "snd (snd ?step) = (if ?close then Suc ordinal else ordinal)"
    by (simp add: chunk_step_def Let_def)
  have c: "\<not> ?close \<longrightarrow> fst (snd ?step) = buffer @ (if buffer = [] then [] else [newline]) @ line"
    by (simp add: chunk_step_def Let_def)
  have d: "int (length buffer) + int (length line) > chunkSize eng \<and> buffer \<noteq> [] \<and>
      5 \<le> chunkOverlap eng \<longrightarrow>
      fst (snd ?step) = join [space]
            (drop (length (split_on space buffer) - nat (chunkOverlap eng div 5))
               (split_on space buffer)) @ [newline] @ line"
  proof (intro impI, elim conjE)
    assume big: "int (length buffer) + int (length line) > chunkSize eng"
      and ne: "buffer \<noteq> []" and ov: "5 \<le> chunkOverlap eng"
    from ov have "1 \<le> chunkOverlap eng div 5" by simp
    then have words: "slice_from (- (chunkOverlap eng div 5)) (split_on space buffer)
        = last_words (nat (chunkOverlap eng div 5)) (split_on space buffer)"
      by (rule slice_from_last_words)
    show "fst (snd ?step) = join [space]
            (drop (length (split_on space buffer) - nat (chunkOverlap eng div 5))
               (split_on space buffer)) @ [newline] @ line"
      using big ne by (simp add: chunk_step_def Let_def words last_words_def)
  qed
  have e: "chunkDocument eng now body d f
     = (case foldl (chunk_step eng now d f) ([], [], 0) (split_on newline body) of
          (chs', buffer', ordinal') \<Rightarrow>
            if buffer' = [] then chs' else chs' @ [createChunk now buffer' d f ordinal'])"
    by (simp add: chunkDocument_def split: prod.splits)
  show ?thesis
    by (rule conjI [OF a conjI [OF b conjI [OF c conjI [OF d e]]]])
qed


theorem C6_chunk_boundaries_witness:
  "(int (length ''alpha beta gamma'') + int (length ''delta'') > chunkSize small_engine \<and>
    ''alpha beta gamma'' \<noteq> [] \<and> 5 \<le> chunkOverlap small_engine) \<and>
   fst (snd (chunk_step small_engine ''t'' ''doc_1'' ''a.txt'' ([], ''alpha beta gamma'', 0) ''delta''))
     = join [space]
         (drop (length (split_on space ''alpha beta gamma'') - nat (chunkOverlap small_engine div 5))
            (split_on space ''alpha beta gamma''))
       @ [newline] @ ''delta'' \<and>
   chunk_step small_engine ''t'' ''doc_1'' ''a.txt'' ([], ''alpha beta gamma'', 0) ''delta''
     = ([createChunk ''t'' ''alpha beta gamma'' ''doc_1'' ''a.txt'' 0],
        ''beta gamma'' @ [newline] @ ''delta'', 1) \<and>
   \<not> (int (length ''alpha'') + int (length ''beta'') > chunkSize small_engine \<and> ''alpha'' \<noteq> []) \<and>
   fst (snd (chunk_step small_engine ''t'' ''doc_1'' ''a.txt'' ([], ''alpha'', 0) ''beta''))
     = ''alpha'' @ (if ''alpha'' = [] then [] else [newline]) @ ''beta''"
proof -
  have h: "int (length ''alpha beta gamma'') + int (length ''delta'') > chunkSize small_engine \<and>
      ''alpha beta gamma'' \<noteq> [] \<and> 5 \<le> chunkOverlap small_engine"
    by (simp add: small_engine_config)
  have n: "\<not> (int (length ''alpha'') + int (length ''beta'') > chunkSize small_engine \<and> ''alpha'' \<noteq> [])"
    by (simp add: small_engine_config)
  note closing = C6_chunk_boundaries [where eng = small_engine and now = "''t''"
      and d = "''doc_1''" and f = "''a.txt''" and chs = "[]" and buffer = "''alpha beta gamma''"
      and ordinal = 0 and line = "''delta''" and body = "[]"]
  note staying = C6_chunk_boundaries [where eng = small_engine and now = "''t''"
      and d = "''doc_1''" and f = "''a.txt''" and chs = "[]" and buffer = "''alpha''"
      and ordinal = 0 and line = "''beta''" and body = "[]"]
  have carry:
    "fst (snd (chunk_step small_engine ''t'' ''doc_1'' ''a.txt'' ([], ''alpha beta gamma'', 0) ''delta''))
     = join [space]
         (drop (length (split_on space ''alpha beta gamma'') - nat (chunkOverlap small_engine div 5))
            (split_on space ''alpha beta gamma''))
       @ [newline] @ ''delta''"
    by (rule mp [OF closing [THEN conjunct2, THEN conjunct2, THEN conjunct2, THEN conjunct1] h])
  have stay:
    "fst (snd (chunk_step small_engine ''t'' ''doc_1'' ''a.txt'' ([], ''alpha'', 0) ''beta''))
     = ''alpha'' @ (if ''alpha'' = [] then [] else [newline]) @ ''beta''"
    by (rule mp [OF staying [THEN conjunct2, THEN conjunct2, THEN conjunct1] n])
  show ?thesis
    by (rule conjI [OF h conjI [OF carry conjI [OF small_engine_step conjI [OF n stay]]]])
qed

text \<open>
  Claim C6 as stated fails where the joining newline decides: with \<open>chunkSize = 3\<close>, the
  buffer \<open>ab\<close> and the next line \<open>c\<close>, appending the line makes a buffer of length 4,
  more than \<open>chunkSize\<close>, and the code appends it all the same.
\<close>

theorem C6_newline_not_counted_counterexample:
  "spec_closes (updateConfig new_engine 3 100) ''ab'' ''c'' \<and>
   \<not> closes (updateConfig new_engine 3 100) ''ab'' ''c'' \<and>
   chunk_step (updateConfig new_engine 3 100) ''t'' ''doc_1'' ''a.txt'' ([], ''ab'', 0) ''c''
     = ([], ''ab'' @ [newline] @ ''c'', 0) \<and>
   chunk_step (updateConfig new_engine 3 100) ''t'' ''doc_1'' ''a.txt'' ([], ''ab'', 0) ''c''
     \<noteq> spec_chunk_step (updateConfig new_engine 3 100) ''t'' ''doc_1'' ''a.txt'' ([], ''ab'', 0) ''c''"
  by code_simp

lemma join_split_on: "join [d] (split_on d s) = s"
proof (induction s)
  case Nil
  show ?case by simp
next
  case (Cons c cs)
  obtain t ts where sp: "split_on d cs = t # ts"
    using split_on_nonempty [of d cs] by (cases "split_on d cs") auto
  show ?case
  proof (cases "c = d")
    case True
    with Cons sp show ?thesis by simp
  next
    case False
    with Cons sp show ?thesis by (cases ts) simp_all
  qed
qed

text \<open>
  With \<open>chunkOverlap\<close> from 0 to 4 the number of overlap words is 0, and \<open>slice(-0)\<close> keeps
  every word: the new buffer starts with the whole closed buffer.
\<close>

lemma chunk_step_small_overlap:
  assumes "0 \<le> chunkOverlap eng" and "chunkOverlap eng < 5" and "closes eng buffer line"
  shows "chunk_step eng now d f (chs, buffer, ordinal) line
     = (chs @ [createChunk now buffer d f ordinal], buffer @ [newline] @ line, Suc ordinal)"
proof -
  from assms(1,2) have "chunkOverlap eng div 5 = 0" by simp
  then have "slice_from (- (chunkOverlap eng div 5)) (split_on space buffer) = split_on space buffer"
    by (simp add: slice_from_def)
  then show ?thesis
    using assms(3) by (simp add: chunk_step_def closes_iff join_split_on)
qed

section \<open>The invariant of the index: proofs\<close>

lemma chunk_step_numbered:
  assumes "numbered d st"
  shows "numbered d (chunk_step eng now d f st line)"
proof -
  obtain chs cur idx where st: "st = (chs, cur, idx)" by (cases st) auto
  with assms show ?thesis
    by (simp add: numbered_def chunk_step_def createChunk_def Let_def)
qed

lemma foldl_numbered:
  "numbered d st \<Longrightarrow> numbered d (foldl (chunk_step eng now d f) st ls)"
  by (induction ls arbitrary: st) (simp_all add: chunk_step_numbered)

lemma chunkDocument_numbered:
  "map index (chunkDocument eng now text d f) = [0..<length (chunkDocument eng now text d f)] \<and>
   list_all (\<lambda>c. docId c = d) (chunkDocument eng now text d f)"
proof -
  have "numbered d ([], [], 0)" by (simp add: numbered_def)
  then have n: "numbered d (foldl (chunk_step eng now d f) ([], [], 0) (split_on newline text))"
    by (rule foldl_numbered)
  obtain chs cur idx where st:
    "foldl (chunk_step eng now d f) ([], [], 0) (split_on newline text) = (chs, cur, idx)"
    by (cases "foldl (chunk_step eng now d f) ([], [], 0) (split_on newline text)") auto
  from n st have a: "map index chs = [0..<idx]" and b: "list_all (\<lambda>c. docId c = d) chs"
    by (simp_all add: numbered_def)
  from a have len: "length chs = idx"
    by (metis length_map length_upt minus_nat.diff_0)
  show ?thesis
    using a b len by (simp add: chunkDocument_def st createChunk_def)
qed

lemma update_fresh: "k \<notin> fst ` set al \<Longrightarrow> AList.update k v al = al @ [(k, v)]"
  by (induction al) auto

lemma filter_none: "list_all (\<lambda>c. docId c \<noteq> d) cs \<Longrightarrow> filter (\<lambda>c. docId c = d) cs = []"
  by (induction cs) auto

lemma filter_all: "list_all (\<lambda>c. docId c = d) cs \<Longrightarrow> filter (\<lambda>c. docId c = d) cs = cs"
  by (induction cs) auto

lemma invariant_config:
  "index_invariant eng \<Longrightarrow> index_invariant (updateConfig eng newSize newOverlap)"
  by (simp add: index_invariant_def updateConfig_def chunks_of_def)

lemma invariant_remove:
  assumes "index_invariant eng"
  shows "index_invariant (snd (removeDocument eng w d))"
proof -
  let ?e = "eng\<lparr>chunks := filter (\<lambda>c. docId c \<noteq> d) (chunks eng),
                   documents := AList.delete d (documents eng)\<rparr>"
  have st: "snd (removeDocument eng w d) = ?e"
    by (cases "deleteDocument w"; cases "deleteChunksByDocId w")
       (simp_all add: removeDocument_def Let_def)
  from assms have dist: "distinct (map fst (documents eng))"
    and own: "\<forall>c\<in>set (chunks eng). docId c \<in> fst ` set (documents eng)"
    and num: "\<forall>(k, doc)\<in>set (documents eng).
        map index (chunks_of eng k) = [0..<length (chunks_of eng k)] \<and>
        chunkCount doc = length (chunks_of eng k)"
    by (simp_all add: index_invariant_def list_all_iff)
  have keys: "fst ` set (AList.delete d (documents eng)) = fst ` set (documents eng) - {d}"
    by (auto simp: AList.delete_eq)
  have same: "chunks_of ?e k = chunks_of eng k" if "k \<noteq> d" for k
  proof -
    have "filter (\<lambda>c. docId c = k) (filter (\<lambda>c. docId c \<noteq> d) (chunks eng))
        = filter (\<lambda>c. docId c = k) (chunks eng)"
      using that by (induction "chunks eng") (auto intro: filter_cong)
    then show ?thesis by (simp add: chunks_of_def)
  qed
  have a: "distinct (map fst (documents ?e))"
    using dist by (simp add: distinct_delete)
  have b: "\<forall>c\<in>set (chunks ?e). docId c \<in> fst ` set (documents ?e)"
    using own by (simp add: keys)
  have c: "\<forall>(k, doc)\<in>set (documents ?e).
        map index (chunks_of ?e k) = [0..<length (chunks_of ?e k)] \<and>
        chunkCount doc = length (chunks_of ?e k)"
  proof (clarify)
    fix k doc
    assume "(k, doc) \<in> set (documents ?e)"
    then have mem: "(k, doc) \<in> set (documents eng)" and ne: "k \<noteq> d"
      by (auto simp: AList.delete_eq)
    from num mem have "map index (chunks_of eng k) = [0..<length (chunks_of eng k)] \<and>
        chunkCount doc = length (chunks_of eng k)" by auto
    then show "map index (chunks_of ?e k) = [0..<length (chunks_of ?e k)] \<and>
        chunkCount doc = length (chunks_of ?e k)"
      by (simp only: same [OF ne]) 
  qed
  from a b c show ?thesis
    unfolding st index_invariant_def list_all_iff by blast
qed


lemma invariant_add:
  assumes "index_invariant eng" and fresh: "generated_id w \<notin> fst ` set (documents eng)"
  shows "index_invariant (snd (addDocument eng w fileName text chat))"
proof -
  let ?d = "generated_id w"
  let ?chs = "chunkDocument eng (timestamp w) text ?d fileName"
  let ?doc = "\<lparr>doc_id = ?d, name = fileName, doc_content = text, addedAt = timestamp w,
      chunkCount = length ?chs, chatId = chat\<rparr>"
  let ?e = "eng\<lparr>documents := documents eng @ [(?d, ?doc)], chunks := chunks eng @ ?chs\<rparr>"
  have st: "snd (addDocument eng w fileName text chat) = ?e"
    by (simp add: addDocument_state update_fresh [OF fresh])
  from assms(1) have dist: "distinct (map fst (documents eng))"
    and own: "\<forall>c\<in>set (chunks eng). docId c \<in> fst ` set (documents eng)"
    and num: "\<forall>(k, doc)\<in>set (documents eng).
        map index (chunks_of eng k) = [0..<length (chunks_of eng k)] \<and>
        chunkCount doc = length (chunks_of eng k)"
    by (simp_all add: index_invariant_def list_all_iff)
  have new_idx: "map index ?chs = [0..<length ?chs]"
    and new_own: "list_all (\<lambda>c. docId c = ?d) ?chs"
    using chunkDocument_numbered [of eng "timestamp w" "text" "generated_id w" fileName] by simp_all
  have old_other: "list_all (\<lambda>c. docId c \<noteq> ?d) (chunks eng)"
    unfolding list_all_iff
  proof
    fix c
    assume "c \<in> set (chunks eng)"
    with own have "docId c \<in> fst ` set (documents eng)" by blast
    with fresh show "docId c \<noteq> generated_id w" by metis
  qed
  have of_new: "chunks_of ?e ?d = ?chs"
    by (simp add: chunks_of_def filter_none [OF old_other] filter_all [OF new_own])
  have of_old: "chunks_of ?e k = chunks_of eng k" if "k \<noteq> ?d" for k
  proof -
    have "list_all (\<lambda>c. docId c \<noteq> k) ?chs"
      using new_own that by (auto simp: list_all_iff)
    then show ?thesis by (simp add: chunks_of_def filter_none)
  qed
  have a: "distinct (map fst (documents ?e))"
    using dist fresh by auto
  have b: "\<forall>c\<in>set (chunks ?e). docId c \<in> fst ` set (documents ?e)"
    using own new_own by (auto simp: list_all_iff)
  have c: "\<forall>(k, doc)\<in>set (documents ?e).
        map index (chunks_of ?e k) = [0..<length (chunks_of ?e k)] \<and>
        chunkCount doc = length (chunks_of ?e k)"
  proof (clarify)
    fix k doc
    assume "(k, doc) \<in> set (documents ?e)"
    then consider (old) "(k, doc) \<in> set (documents eng)" | (new) "k = ?d" "doc = ?doc"
      by auto
    then show "map index (chunks_of ?e k) = [0..<length (chunks_of ?e k)] \<and>
        chunkCount doc = length (chunks_of ?e k)"
    proof cases
      case old
      then have ne: "k \<noteq> ?d" using fresh by force
      from num old have "map index (chunks_of eng k) = [0..<length (chunks_of eng k)] \<and>
        chunkCount doc = length (chunks_of eng k)" by auto
      then show ?thesis by (simp only: of_old [OF ne])
    next
      case new
      then show ?thesis using new_idx by (simp only: of_new) simp
    qed
  qed
  from a b c show ?thesis
    unfolding st index_invariant_def list_all_iff by blast
qed

lemma invariant_initial: "index_invariant new_engine"
  by (simp add: index_invariant_def new_engine_def)

lemma invariant_apply:
  assumes "index_invariant eng" and "fresh_identifiers eng (op # ops)"
  shows "index_invariant (apply_operation eng op)"
proof (cases op)
  case (AddDocument w fileName body chat)
  with assms show ?thesis by (simp add: invariant_add)
next
  case (RemoveDocument w d)
  with assms show ?thesis by (simp add: invariant_remove)
next
  case (UpdateConfig newSize newOverlap)
  with assms show ?thesis by (simp add: invariant_config)
qed

lemma fresh_identifiers_tail:
  "fresh_identifiers eng (op # ops) \<Longrightarrow> fresh_identifiers (apply_operation eng op) ops"
  by (cases op) simp_all

lemma invariant_run:
  "index_invariant eng \<Longrightarrow> fresh_identifiers eng ops \<Longrightarrow> index_invariant (run eng ops)"
  unfolding run_def
proof (induction ops arbitrary: eng)
  case Nil
  then show ?case by simp
next
  case (Cons op ops)
  from Cons.prems have "index_invariant (apply_operation eng op)"
    by (rule invariant_apply)
  moreover from Cons.prems(2) have "fresh_identifiers (apply_operation eng op) ops"
    by (rule fresh_identifiers_tail)
  ultimately have "index_invariant (foldl apply_operation (apply_operation eng op) ops)"
    by (rule Cons.IH)
  then show ?case by simp
qed

text \<open>
  Claim C4, as the code has it. In every state of the index that is reached from the
  empty index by a history of \<open>addDocument\<close>, \<open>removeDocument\<close> and \<open>updateConfig\<close> in
  which every generated identifier is, when it is generated, not a key of the index:
  every stored chunk's \<open>docId\<close> is the key of a stored document, the chunks of each
  document carry the ordinals \<open>0..N-1\<close> in order with no gap, and each document's
  \<open>chunkCount\<close> is the number of chunks stored for it.
\<close>

theorem C4_index_invariant:
  assumes "fresh_identifiers new_engine ops"
  shows "index_invariant (run new_engine ops)"
  using invariant_initial assms by (rule invariant_run)

lemma sample_history_fresh: "fresh_identifiers new_engine sample_history"
  by code_simp

lemma sample_history_state:
  "map (\<lambda>c. (chunk_id c, index c)) (chunks (run new_engine sample_history))
     = [(''doc_2_chunk_0'', 0), (''doc_2_chunk_1'', 1), (''doc_2_chunk_2'', 2), (''doc_1_chunk_0'', 0)] \<and>
   map (\<lambda>(d, doc). (d, chunkCount doc)) (documents (run new_engine sample_history))
     = [(''doc_2'', 3), (''doc_1'', 1)]"
  by code_simp

theorem C4_index_invariant_witness:
  "fresh_identifiers new_engine sample_history \<and>
   index_invariant (run new_engine sample_history) \<and>
   map (\<lambda>c. (chunk_id c, index c)) (chunks (run new_engine sample_history))
     = [(''doc_2_chunk_0'', 0), (''doc_2_chunk_1'', 1), (''doc_2_chunk_2'', 2), (''doc_1_chunk_0'', 0)] \<and>
   map (\<lambda>(d, doc). (d, chunkCount doc)) (documents (run new_engine sample_history))
     = [(''doc_2'', 3), (''doc_1'', 1)]"
  by (rule conjI [OF sample_history_fresh
        conjI [OF C4_index_invariant [OF sample_history_fresh] sample_history_state]])

text \<open>
  Claim C4 as stated fails when \<open>generateDocId\<close> produces an identifier a second time:
  the later document replaces the earlier one under the key, the chunks of both stay,
  and the one document of the index counts one chunk where two are stored, both with
  ordinal 0.
\<close>

theorem C4_repeated_identifier_counterexample:
  "map (\<lambda>(d, doc). (d, chunkCount doc)) (documents (run new_engine colliding_history))
     = [(''doc_1'', 1)] \<and>
   map (\<lambda>c. (docId c, index c)) (chunks (run new_engine colliding_history))
     = [(''doc_1'', 0), (''doc_1'', 0)] \<and>
   \<not> index_invariant (run new_engine colliding_history)"
  by code_simp

end
